theory Spec2Isabelle
  imports Complex_Main "HOL-Library.Word"
begin

unbundle bit_operations_syntax

section \<open>JavaScript values\<close>

text \<open>
  A JavaScript string is a sequence of 16-bit code units; \<open>charCodeAt\<close> reads one of
  them. \<open>js\<close> turns an ASCII literal of the source into such a string. A Buffer is a
  sequence of bytes, and the payload of a webhook is \<open>string | Buffer\<close>.
\<close>

type_synonym js_string = "16 word list"

definition js :: "string \<Rightarrow> js_string" where
  "js s = map of_char s"

datatype payload = PString js_string | PBuffer "8 word list"

text \<open>
  An optional string (\<open>secret?: string\<close>, a header that may be missing) is a
  \<open>js_string option\<close>. JavaScript's \<open>!x\<close> is true for \<open>undefined\<close> and for the
  empty string, so \<open>truthy\<close> is false for both.
\<close>

fun truthy :: "js_string option \<Rightarrow> bool" where
  "truthy None = False"
| "truthy (Some s) = (s \<noteq> [])"

text \<open>The values \<open>JSON.parse\<close> produces. Numbers are carried as exact reals.\<close>

datatype json =
    JNull
  | JBool bool
  | JNumber real
  | JString js_string
  | JArray "json list"
  | JObject "(js_string \<times> json) list"

text \<open>
  The functions of the platform that the service calls: Node's
  \<open>createHmac('sha256', key).update(payload).digest('hex')\<close>, \<open>Buffer.toString()\<close>
  and \<open>JSON.parse\<close>, whose \<open>SyntaxError\<close> is the result \<open>None\<close>. They are not part of
  the repository, so the service is modelled over any such functions.
\<close>

record runtime =
  createHmac_sha256_hex :: "js_string \<Rightarrow> payload \<Rightarrow> js_string"
  Buffer_toString :: "8 word list \<Rightarrow> js_string"
  JSON_parse :: "js_string \<Rightarrow> json option"

section \<open>Errors\<close>

text \<open>
  \<open>XRPLSaleError(message, statusCode?, details?)\<close>; both throws of the webhook service
  pass the message only.
\<close>

datatype error = XRPLSaleError (message: string) (statusCode: "nat option")

section \<open>WebhooksService\<close>

record WebhooksService =
  webhookSecret :: "js_string option"

subsection \<open>safeCompare\<close>

text \<open>
  The loop \<open>result |= a.charCodeAt(i) ^ b.charCodeAt(i)\<close> runs over the indices of
  \<open>a\<close>, and only when both strings have the same length. The bitwise operators work on
  32-bit integers, into which a code unit embeds unchanged.
\<close>

fun safeCompare_loop :: "js_string \<Rightarrow> js_string \<Rightarrow> 32 word \<Rightarrow> 32 word" where
  "safeCompare_loop (x # xs) (y # ys) result =
     safeCompare_loop xs ys (result OR (ucast x XOR ucast y))"
| "safeCompare_loop _ _ result = result"

definition safeCompare :: "js_string \<Rightarrow> js_string \<Rightarrow> bool" where
  "safeCompare a b =
     (if length a \<noteq> length b then False
      else safeCompare_loop a b 0 = 0)"

subsection \<open>verifySignature\<close>

text \<open>
  \<open>secret || this.webhookSecret!\<close> is evaluated after the guard, so the operand it
  selects is a non-empty string.
\<close>

definition verifySignature ::
  "runtime \<Rightarrow> WebhooksService \<Rightarrow> payload \<Rightarrow> js_string \<Rightarrow> js_string option \<Rightarrow> error + bool"
where
  "verifySignature rt this payload signature secret =
     (if \<not> truthy secret \<and> \<not> truthy (webhookSecret this)
      then Inl (XRPLSaleError ''Webhook secret is required for signature verification'' None)
      else
        let secretToUse = (if truthy secret then the secret else the (webhookSecret this));
            expectedSignature = createHmac_sha256_hex rt secretToUse payload
        in Inr (safeCompare (js ''sha256='' @ expectedSignature) signature))"

subsection \<open>parseWebhook\<close>

definition parseWebhook :: "runtime \<Rightarrow> payload \<Rightarrow> error + json" where
  "parseWebhook rt payload =
     (let data = (case payload of PString s \<Rightarrow> s | PBuffer b \<Rightarrow> Buffer_toString rt b)
      in case JSON_parse rt data of
           None \<Rightarrow> Inl (XRPLSaleError ''Invalid webhook payload'' None)
         | Some v \<Rightarrow> Inr v)"

subsection \<open>middleware\<close>

text \<open>
  The request as the middleware reads it: the raw body and the headers. The middleware
  either answers through \<open>res.status(code).json({ error })\<close>, which is
  \<open>Response code error\<close>, or sets \<open>req.webhookEvent\<close> and \<open>req.body\<close> to the
  parsed event and calls \<open>next()\<close>, which is \<open>Next event\<close>. Its body is one
  \<open>try\<close> block: what \<open>verifySignature\<close> or \<open>parseWebhook\<close> throws is caught
  and answered 400 with the error's message.
\<close>

record options =
  opt_secret :: "js_string option"
  opt_verifySignature :: "bool option"

record request =
  body :: payload
  headers :: "string \<Rightarrow> js_string option"

datatype outcome =
    Response nat string
  | Next json

definition options_secret :: "options option \<Rightarrow> js_string option" where
  "options_secret options = (case options of None \<Rightarrow> None | Some opts \<Rightarrow> opt_secret opts)"

definition options_verifySignature :: "options option \<Rightarrow> bool option" where
  "options_verifySignature options =
     (case options of None \<Rightarrow> None | Some opts \<Rightarrow> opt_verifySignature opts)"

definition parse_and_next :: "runtime \<Rightarrow> payload \<Rightarrow> outcome" where
  "parse_and_next rt rawBody =
     (case parseWebhook rt rawBody of
        Inl e \<Rightarrow> Response 400 (message e)
      | Inr event \<Rightarrow> Next event)"

definition middleware ::
  "runtime \<Rightarrow> WebhooksService \<Rightarrow> options option \<Rightarrow> request \<Rightarrow> outcome"
where
  "middleware rt this options req =
     (let rawBody = body req in
      if options_verifySignature options \<noteq> Some False then
        (let signature = headers req ''x-xrpl-sale-signature'' in
         if \<not> truthy signature then Response 401 ''Missing signature header''
         else
           (case verifySignature rt this rawBody (the signature) (options_secret options) of
              Inl e \<Rightarrow> Response 400 (message e)
            | Inr ok \<Rightarrow>
                if \<not> ok then Response 401 ''Invalid signature''
                else parse_and_next rt rawBody))
      else parse_and_next rt rawBody)"

section \<open>RetryUtils.withRetry\<close>

text \<open>
  A JavaScript number is an IEEE double, and what \<open>Math.pow\<close> returns is approximated
  by the platform. The arithmetic that \<open>withRetry\<close> uses is therefore taken from the
  platform: the number that an integer literal of the source denotes, the product
  \<open>x * y\<close> of two numbers, and \<open>Math.pow(x, i)\<close> for the loop counter \<open>i\<close>.
\<close>

record 'n numbers =
  number_of_int :: "int \<Rightarrow> 'n"
  multiply :: "'n \<Rightarrow> 'n \<Rightarrow> 'n"
  Math_pow :: "'n \<Rightarrow> int \<Rightarrow> 'n"

text \<open>
  The operation \<open>fn\<close> is a step on the state of the world that fails with an error or
  returns a value. The loop records what it does, in the order in which it does it:
  every call of \<open>fn\<close> and every wait with its duration,
  \<open>delay * Math.pow(backoff, i)\<close>. The counter \<open>i\<close> and \<open>maxRetries\<close> are integers.
  \<open>lastError\<close> is \<open>None\<close> until the first failure assigns it, and what is thrown is
  its value.
\<close>

datatype 'n event = Called | Waited 'n

function withRetry_loop ::
  "'n numbers \<Rightarrow> ('s \<Rightarrow> ('e + 'a) \<times> 's) \<Rightarrow> int \<Rightarrow> 'n \<Rightarrow> 'n \<Rightarrow> int \<Rightarrow> 'e option \<Rightarrow> 's
     \<Rightarrow> ('e option + 'a) \<times> 's \<times> 'n event list"
where
  "withRetry_loop nums fn maxRetries delay backoff i lastError s =
     (if i \<le> maxRetries then
        (case fn s of
           (Inr v, s') \<Rightarrow> (Inr v, s', [Called])
         | (Inl error, s') \<Rightarrow>
             if i = maxRetries then (Inl (Some error), s', [Called])
             else
               (case withRetry_loop nums fn maxRetries delay backoff (i + 1) (Some error) s' of
                  (r, s'', evs) \<Rightarrow>
                    (r, s'', Called # Waited (multiply nums delay (Math_pow nums backoff i)) # evs)))
      else (Inl lastError, s, []))"
  by pat_completeness auto
termination
  by (relation
        "measure (\<lambda>(nums, fn, maxRetries, delay, backoff, i, lastError, s). nat (maxRetries + 1 - i))")
     auto

definition withRetry ::
  "'n numbers \<Rightarrow> ('s \<Rightarrow> ('e + 'a) \<times> 's) \<Rightarrow> int option \<Rightarrow> 'n option \<Rightarrow> 'n option \<Rightarrow> 's
     \<Rightarrow> ('e option + 'a) \<times> 's \<times> 'n event list"
where
  "withRetry nums fn maxRetries delay backoff s =
     withRetry_loop nums fn
       (case maxRetries of None \<Rightarrow> 3 | Some m \<Rightarrow> m)
       (case delay of None \<Rightarrow> number_of_int nums 1000 | Some d \<Rightarrow> d)
       (case backoff of None \<Rightarrow> number_of_int nums 2 | Some b \<Rightarrow> b)
       0 None s"

section \<open>Notions used to state the properties\<close>

text \<open>
  When \<open>fn\<close> is called again and again from the state \<open>s\<close>, \<open>attempt_state fn s k\<close>
  is the state before call number \<open>k\<close> (counted from 0) and \<open>attempt fn s k\<close> is what
  that call produces.
\<close>

fun attempt_state :: "('s \<Rightarrow> ('e + 'a) \<times> 's) \<Rightarrow> 's \<Rightarrow> nat \<Rightarrow> 's" where
  "attempt_state fn s 0 = s"
| "attempt_state fn s (Suc k) = attempt_state fn (snd (fn s)) k"

definition attempt :: "('s \<Rightarrow> ('e + 'a) \<times> 's) \<Rightarrow> 's \<Rightarrow> nat \<Rightarrow> 'e + 'a" where
  "attempt fn s k = fst (fn (attempt_state fn s k))"

text \<open>The calls and the waits of a run, read off the recorded events.\<close>

fun calls :: "'n event list \<Rightarrow> nat" where
  "calls [] = 0"
| "calls (Called # evs) = Suc (calls evs)"
| "calls (Waited d # evs) = calls evs"

fun waits :: "'n event list \<Rightarrow> 'n list" where
  "waits [] = []"
| "waits (Called # evs) = waits evs"
| "waits (Waited d # evs) = d # waits evs"

text \<open>
  The events of \<open>k\<close> rounds at the counter values \<open>i, i + 1, \<dots>\<close>: in each round a
  call, and after it the wait that the loop computes at that counter value.
\<close>

definition failed_rounds :: "'n numbers \<Rightarrow> 'n \<Rightarrow> 'n \<Rightarrow> nat \<Rightarrow> nat \<Rightarrow> 'n event list" where
  "failed_rounds nums delay backoff i k =
     concat (map (\<lambda>j. [Called, Waited (multiply nums delay (Math_pow nums backoff (int j)))])
               [i ..< i + k])"

text \<open>What a run returns or throws when it ends with a call that produced \<open>r\<close>.\<close>

definition settle :: "'e + 'a \<Rightarrow> 'e option + 'a" where
  "settle r = (case r of Inl e \<Rightarrow> Inl (Some e) | Inr v \<Rightarrow> Inr v)"

text \<open>
  The shape of \<open>interface WebhookEvent { id; type; data; timestamp; version }\<close>: an
  object that has each of the five fields.
\<close>

definition has_field :: "json \<Rightarrow> string \<Rightarrow> bool" where
  "has_field v k = (case v of JObject fs \<Rightarrow> map_of fs (js k) \<noteq> None | _ \<Rightarrow> False)"

definition is_WebhookEvent :: "json \<Rightarrow> bool" where
  "is_WebhookEvent v =
     (has_field v ''id'' \<and> has_field v ''type'' \<and> has_field v ''data'' \<and>
      has_field v ''timestamp'' \<and> has_field v ''version'')"

text \<open>The text that \<open>parseWebhook\<close> hands to \<open>JSON.parse\<close>.\<close>

definition payload_text :: "runtime \<Rightarrow> payload \<Rightarrow> js_string" where
  "payload_text rt payload = (case payload of PString s \<Rightarrow> s | PBuffer b \<Rightarrow> Buffer_toString rt b)"

subsection \<open>A runtime for the examples\<close>

text \<open>
  The examples below run the service on the webhook of the specification: the body
  \<open>bytes event_text\<close> signed with the secret \<open>whsec_test\<close>. \<open>example_runtime\<close> holds
  the values that Node computes on the inputs of the examples: the digests are the
  HMAC-SHA256 values of these very bytes under these keys, and on ASCII bytes
  \<open>Buffer.toString\<close> is the embedding of bytes into code units. No example uses it
  on another input.
\<close>

definition event_text :: string where
  "event_text = ''{\"id\":\"evt_1\",\"type\":\"investment.confirmed\",\"data\":{},\"timestamp\":\"2025-01-01T00:00:00Z\",\"version\":\"1\"}''"

definition bytes :: "string \<Rightarrow> 8 word list" where
  "bytes s = map of_char s"

definition event_json :: json where
  "event_json = JObject
     [(js ''id'', JString (js ''evt_1'')),
      (js ''type'', JString (js ''investment.confirmed'')),
      (js ''data'', JObject []),
      (js ''timestamp'', JString (js ''2025-01-01T00:00:00Z'')),
      (js ''version'', JString (js ''1''))]"

definition example_toString :: "8 word list \<Rightarrow> js_string" where
  "example_toString b = map ucast b"

definition example_hmac :: "js_string \<Rightarrow> payload \<Rightarrow> js_string" where
  "example_hmac key payload =
     (let text = (case payload of PString s \<Rightarrow> s | PBuffer b \<Rightarrow> example_toString b) in
      if key = js ''whsec_test'' \<and> text = js event_text
        then js ''18db97f5ded002c649fe0dfdaf93ecd89f48c5761279673a71eaf9627c14fada''
      else if key = js ''whsec_test'' \<and> text = js ''not-json''
        then js ''3dfe711bff9709e422f05bfd629824c5a6d68d8c9659bf361f14de6940e3b945''
      else if key = js ''whsec_test'' \<and> text = js ''{}''
        then js ''46bdc2a2e83964bd2695acc6a1f97162d8bafc135a071aa5cd5c99aae5481440''
      else if key = [] \<and> text = js ''{}''
        then js ''22f8eea909400af98adf3681a9f31923ef6b7fcba4abb553d92823a3e9d5c25e''
      else [])"

definition example_parse :: "js_string \<Rightarrow> json option" where
  "example_parse text =
     (if text = js event_text then Some event_json
      else if text = js ''{}'' then Some (JObject [])
      else None)"

definition example_runtime :: runtime where
  "example_runtime =
     \<lparr> createHmac_sha256_hex = example_hmac,
       Buffer_toString = example_toString,
       JSON_parse = example_parse \<rparr>"

definition example_request :: "payload \<Rightarrow> js_string option \<Rightarrow> request" where
  "example_request rawBody signature =
     \<lparr> body = rawBody,
       headers = (\<lambda>name. if name = ''x-xrpl-sale-signature'' then signature else None) \<rparr>"

text \<open>
  On the numbers of the examples, 1000 and 2 with the counter values 0, 1 and 2, the
  doubles that the platform computes are the exact products and powers.
\<close>

definition exact_numbers :: "real numbers" where
  "exact_numbers =
     \<lparr> number_of_int = of_int,
       multiply = (\<lambda>x y. x * y),
       Math_pow = (\<lambda>x i. x ^ nat i) \<rparr>"

text \<open>
  Two operations for the examples. Their state is the number of calls made so far:
  \<open>always_fails\<close> fails at every call with that number as its error, and
  \<open>fails_twice\<close> fails at its first two calls and returns a value from the third on.
\<close>

definition always_fails :: "nat \<Rightarrow> (nat + nat) \<times> nat" where
  "always_fails n = (Inl n, Suc n)"

definition fails_twice :: "nat \<Rightarrow> (nat + nat) \<times> nat" where
  "fails_twice n = (if n < 2 then Inl n else Inr (100 + n), Suc n)"

section \<open>Auxiliary lemmas\<close>

subsection \<open>Character codes and the comparison loop\<close>

lemma word32_xor_zero_iff: "((a :: 32 word) XOR b = 0) = (a = b)"
proof
  assume "a XOR b = 0"
  then have "(a XOR b) XOR b = b" by simp
  then show "a = b" by (simp add: xor.assoc)
next
  assume "a = b" then show "a XOR b = 0" by simp
qed

lemma ucast_charCode_inj: "((ucast (x :: 16 word) :: 32 word) = ucast y) = (x = y)"
proof
  assume h: "(ucast x :: 32 word) = ucast y"
  have "(ucast (ucast x :: 32 word) :: 16 word) = x" "(ucast (ucast y :: 32 word) :: 16 word) = y"
    by (simp_all add: ucast_up_ucast_id is_up)
  with h show "x = y" by metis
qed simp

lemma charCode_xor_zero: "(ucast (x :: 16 word) XOR ucast y = (0 :: 32 word)) = (x = y)"
  by (simp add: word32_xor_zero_iff ucast_charCode_inj)

lemma safeCompare_loop_fold:
  "safeCompare_loop a b result =
     fold (\<lambda>(x, y) r. r OR (ucast x XOR ucast y)) (zip a b) result"
  by (induction a b result rule: safeCompare_loop.induct) simp_all

lemma safeCompare_loop_zero:
  "length a = length b \<Longrightarrow> (safeCompare_loop a b result = 0) = (result = 0 \<and> a = b)"
proof (induction a b result rule: safeCompare_loop.induct)
  case (1 x xs y ys result)
  then show ?case
    by (auto simp: or_eq_0_iff charCode_xor_zero)
qed simp_all

lemma safeCompare_eq: "safeCompare a b = (a = b)"
  by (auto simp: safeCompare_def safeCompare_loop_zero)

subsection \<open>The retry loop\<close>

declare withRetry_loop.simps [simp del]

lemma attempt_state_step: "snd (fn (attempt_state fn s k)) = attempt_state fn s (Suc k)"
  by (induction k arbitrary: s) simp_all

lemma attempt_Suc: "attempt fn s (Suc k) = attempt fn (snd (fn s)) k"
  by (simp add: attempt_def)

lemma attempt_0: "attempt fn s 0 = fst (fn s)"
  by (simp add: attempt_def)

lemma failed_rounds_0: "failed_rounds nums d b i 0 = []"
  by (simp add: failed_rounds_def)

lemma failed_rounds_Suc:
  "failed_rounds nums d b i (Suc k) =
     Called # Waited (multiply nums d (Math_pow nums b (int i))) # failed_rounds nums d b (Suc i) k"
  by (simp add: failed_rounds_def upt_conv_Cons del: upt_Suc)

lemma calls_failed_rounds: "calls (failed_rounds nums d b i k @ evs) = k + calls evs"
  by (induction k arbitrary: i) (simp_all add: failed_rounds_0 failed_rounds_Suc)

lemma waits_failed_rounds:
  "waits (failed_rounds nums d b i k @ evs) =
     map (\<lambda>j. multiply nums d (Math_pow nums b (int j))) [i ..< i + k] @ waits evs"
  by (induction k arbitrary: i)
     (simp_all add: failed_rounds_0 failed_rounds_Suc upt_conv_Cons del: upt_Suc)

lemma withRetry_loop_returns:
  "i \<le> m \<Longrightarrow> fn s = (Inr v, s') \<Longrightarrow>
     withRetry_loop nums fn m d b i lastError s = (Inr v, s', [Called])"
  by (subst withRetry_loop.simps) simp

lemma withRetry_loop_throws:
  "fn s = (Inl e, s') \<Longrightarrow>
     withRetry_loop nums fn m d b m lastError s = (Inl (Some e), s', [Called])"
  by (subst withRetry_loop.simps) simp

lemma withRetry_loop_retries:
  "i < m \<Longrightarrow> fn s = (Inl e, s') \<Longrightarrow>
     withRetry_loop nums fn m d b i lastError s =
       (case withRetry_loop nums fn m d b (i + 1) (Some e) s' of
          (r, s'', evs) \<Rightarrow>
            (r, s'', Called # Waited (multiply nums d (Math_pow nums b i)) # evs))"
  by (subst withRetry_loop.simps) simp

lemma withRetry_loop_not_entered:
  "m < i \<Longrightarrow> withRetry_loop nums fn m d b i lastError s = (Inl lastError, s, [])"
  by (subst withRetry_loop.simps) simp

text \<open>
  When the first \<open>k\<close> calls fail and none of them is the final one allowed, the loop
  goes through \<open>k\<close> rounds of call and wait and carries on from the counter \<open>i + k\<close>.
\<close>

lemma withRetry_loop_failed_rounds:
  "0 \<le> i \<Longrightarrow> i + int k \<le> m \<Longrightarrow> \<forall>j<k. isl (attempt fn s j) \<Longrightarrow>
     withRetry_loop nums fn m d b i lastError s =
       (case withRetry_loop nums fn m d b (i + int k)
               (if k = 0 then lastError else Some (projl (attempt fn s (k - 1))))
               (attempt_state fn s k) of
          (r, s', evs) \<Rightarrow> (r, s', failed_rounds nums d b (nat i) k @ evs))"
proof (induction k arbitrary: i s lastError)
  case 0
  then show ?case by (simp add: failed_rounds_0 split: prod.split)
next
  case (Suc k)
  from Suc.prems(3) have "isl (attempt fn s 0)" by blast
  then obtain e s1 where fn_s: "fn s = (Inl e, s1)"
    by (cases "fn s") (auto simp: attempt_0 isl_def)
  have later: "\<forall>j<k. isl (attempt fn s1 j)"
  proof (intro allI impI)
    fix j assume "j < k"
    then have "isl (attempt fn s (Suc j))" using Suc.prems(3) by simp
    then show "isl (attempt fn s1 j)" by (simp add: attempt_Suc fn_s)
  qed
  have i_lt: "i < m" using Suc.prems(2) by simp
  have step: "withRetry_loop nums fn m d b i lastError s =
       (case withRetry_loop nums fn m d b (i + 1) (Some e) s1 of
          (r, s'', evs) \<Rightarrow>
            (r, s'', Called # Waited (multiply nums d (Math_pow nums b i)) # evs))"
    by (rule withRetry_loop_retries [where fn = fn and s = s, OF i_lt fn_s])
  have ih: "withRetry_loop nums fn m d b (i + 1) (Some e) s1 =
       (case withRetry_loop nums fn m d b (i + 1 + int k)
               (if k = 0 then Some e else Some (projl (attempt fn s1 (k - 1))))
               (attempt_state fn s1 k) of
          (r, s', evs) \<Rightarrow> (r, s', failed_rounds nums d b (nat (i + 1)) k @ evs))"
    using Suc.prems(1,2) later by (intro Suc.IH) simp_all
  have last_eq: "(if k = 0 then Some e else Some (projl (attempt fn s1 (k - 1)))) =
      Some (projl (attempt fn s (Suc k - 1)))"
  proof (cases k)
    case 0
    then show ?thesis by (simp add: attempt_0 fn_s)
  next
    case (Suc k')
    then show ?thesis by (simp add: attempt_Suc fn_s)
  qed
  have nat_eq: "nat (i + 1) = Suc (nat i)" using Suc.prems(1) by simp
  have idx: "i + 1 + int k = i + int (Suc k)" by simp
  show ?case
    unfolding step ih last_eq nat_eq idx
    using Suc.prems(1) by (simp add: failed_rounds_Suc fn_s split: prod.split)
qed

lemma withRetry_loop_exhausted:
  assumes "0 \<le> i" and "i + int n = m" and "\<forall>j\<le>n. isl (attempt fn s j)"
  shows "withRetry_loop nums fn m d b i lastError s =
     (Inl (Some (projl (attempt fn s n))), attempt_state fn s (Suc n),
      failed_rounds nums d b (nat i) n @ [Called])"
proof -
  from assms(3) have "isl (attempt fn s n)" by simp
  then obtain e s' where fn_n: "fn (attempt_state fn s n) = (Inl e, s')"
    by (cases "fn (attempt_state fn s n)") (auto simp: attempt_def isl_def)
  have s': "s' = attempt_state fn s (Suc n)"
    using attempt_state_step [of fn s n] fn_n by simp
  have e: "e = projl (attempt fn s n)" by (simp add: attempt_def fn_n)
  have "withRetry_loop nums fn m d b i lastError s =
       (case withRetry_loop nums fn m d b (i + int n)
               (if n = 0 then lastError else Some (projl (attempt fn s (n - 1))))
               (attempt_state fn s n) of
          (r, s', evs) \<Rightarrow> (r, s', failed_rounds nums d b (nat i) n @ evs))"
    using assms by (intro withRetry_loop_failed_rounds) simp_all
  also have "withRetry_loop nums fn m d b (i + int n)
               (if n = 0 then lastError else Some (projl (attempt fn s (n - 1))))
               (attempt_state fn s n) = (Inl (Some e), s', [Called])"
    unfolding assms(2) by (rule withRetry_loop_throws [where fn = fn, OF fn_n])
  finally show ?thesis by (simp add: s' e)
qed

lemma withRetry_loop_succeeds:
  assumes "0 \<le> i" and "i + int k \<le> m" and "\<forall>j<k. isl (attempt fn s j)"
    and "attempt fn s k = Inr v"
  shows "withRetry_loop nums fn m d b i lastError s =
     (Inr v, attempt_state fn s (Suc k), failed_rounds nums d b (nat i) k @ [Called])"
proof -
  obtain r s' where fn_k: "fn (attempt_state fn s k) = (r, s')"
    by (cases "fn (attempt_state fn s k)")
  with assms(4) have r: "r = Inr v" by (simp add: attempt_def)
  have s': "s' = attempt_state fn s (Suc k)"
    using attempt_state_step [of fn s k] fn_k by simp
  have "withRetry_loop nums fn m d b i lastError s =
       (case withRetry_loop nums fn m d b (i + int k)
               (if k = 0 then lastError else Some (projl (attempt fn s (k - 1))))
               (attempt_state fn s k) of
          (r, s', evs) \<Rightarrow> (r, s', failed_rounds nums d b (nat i) k @ evs))"
    using assms(1-3) by (rule withRetry_loop_failed_rounds)
  also have "withRetry_loop nums fn m d b (i + int k)
               (if k = 0 then lastError else Some (projl (attempt fn s (k - 1))))
               (attempt_state fn s k) = (Inr v, s', [Called])"
    using assms(2) fn_k r by (intro withRetry_loop_returns) simp_all
  finally show ?thesis by (simp add: s')
qed

text \<open>
  Whatever the operation does, a run that enters the loop is \<open>k\<close> rounds of a failed
  call and a wait, and then one more call, which settles the run: either it returns a
  value, or it fails and is the final call allowed.
\<close>

lemma withRetry_loop_run:
  assumes "0 \<le> i" and "i \<le> m"
  shows "\<exists>k. i + int k \<le> m \<and> (\<forall>j<k. isl (attempt fn s j)) \<and>
           (isl (attempt fn s k) \<longrightarrow> i + int k = m) \<and>
           withRetry_loop nums fn m d b i lastError s =
             (settle (attempt fn s k), attempt_state fn s (Suc k),
              failed_rounds nums d b (nat i) k @ [Called])"
proof (cases "\<forall>j\<le>nat (m - i). isl (attempt fn s j)")
  case True
  let ?n = "nat (m - i)"
  have m: "i + int ?n = m" using assms(2) by simp
  have "isl (attempt fn s ?n)" using True by simp
  then have st: "settle (attempt fn s ?n) = Inl (Some (projl (attempt fn s ?n)))"
    by (cases "attempt fn s ?n") (simp_all add: settle_def)
  have "withRetry_loop nums fn m d b i lastError s =
     (Inl (Some (projl (attempt fn s ?n))), attempt_state fn s (Suc ?n),
      failed_rounds nums d b (nat i) ?n @ [Called])"
    using assms(1) m True by (rule withRetry_loop_exhausted)
  with m True st show ?thesis
    by (intro exI [of _ ?n]) simp
next
  case False
  then have ex: "\<exists>j. \<not> isl (attempt fn s j)" by blast
  define k where "k = (LEAST j. \<not> isl (attempt fn s j))"
  have nk: "\<not> isl (attempt fn s k)" unfolding k_def using ex by (rule LeastI_ex)
  have before: "\<forall>j<k. isl (attempt fn s j)"
    unfolding k_def using not_less_Least by blast
  from False obtain j where j: "j \<le> nat (m - i)" "\<not> isl (attempt fn s j)" by blast
  have "k \<le> j" unfolding k_def using j(2) by (rule Least_le)
  with j(1) assms(2) have bound: "i + int k \<le> m" by simp
  from nk obtain v where v: "attempt fn s k = Inr v"
    by (cases "attempt fn s k") simp_all
  have "withRetry_loop nums fn m d b i lastError s =
     (Inr v, attempt_state fn s (Suc k), failed_rounds nums d b (nat i) k @ [Called])"
    using assms(1) bound before v by (rule withRetry_loop_succeeds)
  with bound before nk v show ?thesis
    by (intro exI [of _ k]) (simp add: settle_def)
qed

lemma attempt_state_always_fails: "attempt_state always_fails s k = s + k"
  by (induction k arbitrary: s) (simp_all add: always_fails_def)

lemma attempt_always_fails: "attempt always_fails s k = Inl (s + k)"
  by (simp add: attempt_def attempt_state_always_fails always_fails_def)

lemma attempt_state_fails_twice: "attempt_state fails_twice s k = s + k"
  by (induction k arbitrary: s) (simp_all add: fails_twice_def)

lemma attempt_fails_twice:
  "attempt fails_twice s k = (if s + k < 2 then Inl (s + k) else Inr (100 + (s + k)))"
  by (simp add: attempt_def attempt_state_fails_twice fails_twice_def)

lemma withRetry_loop_resolved:
  "withRetry nums fn (Some m) delay backoff s =
     withRetry_loop nums fn m
       (case delay of None \<Rightarrow> number_of_int nums 1000 | Some d \<Rightarrow> d)
       (case backoff of None \<Rightarrow> number_of_int nums 2 | Some b \<Rightarrow> b) 0 None s"
  by (simp add: withRetry_def)

lemma failed_rounds_exact:
  "failed_rounds exact_numbers d b i k =
     concat (map (\<lambda>j. [Called, Waited (d * b ^ j)]) [i ..< i + k])"
  by (simp add: failed_rounds_def exact_numbers_def)

lemma exact_numbers_simps:
  "number_of_int exact_numbers n = of_int n"
  "multiply exact_numbers x y = x * y"
  "Math_pow exact_numbers x i = x ^ nat i"
  by (simp_all add: exact_numbers_def)

subsection \<open>Secrets, parsing and the example runtime\<close>

lemmas example_defs =
  example_runtime_def example_hmac_def example_parse_def example_toString_def
  js_def bytes_def event_text_def event_json_def

lemma truthy_the: "truthy x \<Longrightarrow> x = Some (the x) \<and> the x \<noteq> []"
  by (cases x) simp_all

lemma verifySignature_no_secret:
  "\<not> truthy secret \<Longrightarrow> \<not> truthy (webhookSecret this) \<Longrightarrow>
     verifySignature rt this payload signature secret =
       Inl (XRPLSaleError ''Webhook secret is required for signature verification'' None)"
  by (simp add: verifySignature_def)

lemma verifySignature_secret:
  "truthy secret \<or> truthy (webhookSecret this) \<Longrightarrow>
     verifySignature rt this payload signature secret =
       Inr (signature = js ''sha256='' @
              createHmac_sha256_hex rt
                (if truthy secret then the secret else the (webhookSecret this)) payload)"
  by (auto simp: verifySignature_def safeCompare_eq Let_def)

lemma parseWebhook_cases:
  "parseWebhook rt payload =
     (case JSON_parse rt (payload_text rt payload) of
        None \<Rightarrow> Inl (XRPLSaleError ''Invalid webhook payload'' None)
      | Some v \<Rightarrow> Inr v)"
  by (simp add: parseWebhook_def payload_text_def)

section \<open>The webhook service\<close>

text \<open>
  The middleware with signature verification enabled, on a request that carries a
  signature header while no secret is given or configured: \<open>verifySignature\<close>
  throws, and the \<open>catch\<close> answers 400 with the error's message, not 401. On a
  request whose header is the empty string the answer is the one for a missing header.
\<close>

theorem middleware_missing_secret_counterexample:
  "headers (example_request (PString (js ''{}'')) (Some (js ''sha256=00'')))
     ''x-xrpl-sale-signature'' = Some (js ''sha256=00'') \<and>
   middleware example_runtime \<lparr>webhookSecret = None\<rparr> None
     (example_request (PString (js ''{}'')) (Some (js ''sha256=00''))) =
     Response 400 ''Webhook secret is required for signature verification'' \<and>
   headers (example_request (PString (js ''{}'')) (Some []))
     ''x-xrpl-sale-signature'' = Some [] \<and>
   middleware example_runtime \<lparr>webhookSecret = Some (js ''whsec_test'')\<rparr> None
     (example_request (PString (js ''{}'')) (Some [])) =
     Response 401 ''Missing signature header''"
  by (simp add: middleware_def options_verifySignature_def options_secret_def
        verifySignature_def example_request_def Let_def js_def)

text \<open>
  Claim C1, as the code has it. With signature verification enabled the middleware
  checks, in this order: a header \<open>x-xrpl-sale-signature\<close> that is missing or empty
  is answered 401 \<open>Missing signature header\<close>; no non-empty secret, neither in the
  options nor configured, is answered 400 with the message of the error that
  \<open>verifySignature\<close> throws; a header that differs from \<open>sha256=\<close> followed by the
  hex digest of the raw body is answered 401 \<open>Invalid signature\<close>; a body that
  \<open>JSON.parse\<close> rejects is answered 400 \<open>Invalid webhook payload\<close>; otherwise
  \<open>next()\<close> is called with the parsed event on the request.
\<close>

theorem middleware_checks_in_order:
  assumes "options_verifySignature options \<noteq> Some False"
  shows "middleware rt this options req =
     (let signature = headers req ''x-xrpl-sale-signature'';
          secret = options_secret options
      in
        if \<not> truthy signature then Response 401 ''Missing signature header''
        else if \<not> truthy secret \<and> \<not> truthy (webhookSecret this)
          then Response 400 ''Webhook secret is required for signature verification''
        else if the signature \<noteq>
                js ''sha256='' @
                  createHmac_sha256_hex rt
                    (if truthy secret then the secret else the (webhookSecret this)) (body req)
          then Response 401 ''Invalid signature''
        else
          (case JSON_parse rt (payload_text rt (body req)) of
             None \<Rightarrow> Response 400 ''Invalid webhook payload''
           | Some event \<Rightarrow> Next event))"
proof (cases "truthy (options_secret options) \<or> truthy (webhookSecret this)")
  case True
  show ?thesis
    using assms True
    by (auto simp: middleware_def Let_def verifySignature_secret [OF True]
          parse_and_next_def parseWebhook_cases split: option.split)
next
  case False
  then have "\<not> truthy (options_secret options)" "\<not> truthy (webhookSecret this)" by simp_all
  then show ?thesis
    using assms
    by (simp add: middleware_def Let_def verifySignature_no_secret)
qed

theorem middleware_checks_in_order_witness:
  "options_verifySignature None \<noteq> Some False \<and>
   middleware example_runtime \<lparr>webhookSecret = Some (js ''whsec_test'')\<rparr> None
     (example_request (PBuffer (bytes event_text))
        (Some (js ''sha256=18db97f5ded002c649fe0dfdaf93ecd89f48c5761279673a71eaf9627c14fada''))) =
     Next event_json \<and>
   middleware example_runtime \<lparr>webhookSecret = Some (js ''whsec_test'')\<rparr> None
     (example_request (PBuffer (bytes event_text)) None) =
     Response 401 ''Missing signature header'' \<and>
   middleware example_runtime \<lparr>webhookSecret = Some (js ''whsec_test'')\<rparr> None
     (example_request (PBuffer (bytes event_text)) (Some (js ''sha256=00''))) =
     Response 401 ''Invalid signature'' \<and>
   middleware example_runtime \<lparr>webhookSecret = Some (js ''whsec_test'')\<rparr> None
     (example_request (PBuffer (bytes ''not-json''))
        (Some (js ''sha256=3dfe711bff9709e422f05bfd629824c5a6d68d8c9659bf361f14de6940e3b945''))) =
     Response 400 ''Invalid webhook payload''"
proof -
  have h: "options_verifySignature None \<noteq> Some False"
    by (simp add: options_verifySignature_def)
  note m = middleware_checks_in_order [OF h, of example_runtime
      "\<lparr>webhookSecret = Some (js ''whsec_test'')\<rparr>"]
  show ?thesis
    unfolding m using h
    by (simp add: example_request_def options_secret_def payload_text_def example_defs)
qed

text \<open>
  Signing with the empty secret and verifying with it: the empty string counts as no
  secret, and with no configured default \<open>verifySignature\<close> throws.
\<close>

theorem sign_then_verify_empty_secret_counterexample:
  "verifySignature example_runtime \<lparr>webhookSecret = None\<rparr> (PString (js ''{}''))
     (js ''sha256='' @ createHmac_sha256_hex example_runtime [] (PString (js ''{}'')))
     (Some []) =
   Inl (XRPLSaleError ''Webhook secret is required for signature verification'' None)"
  by (simp add: verifySignature_def)

text \<open>
  Claim C3, for non-empty secrets. For every payload and every non-empty secret, the
  signature \<open>sha256=\<close> followed by the hex HMAC-SHA256 of the payload under that
  secret verifies against the same payload and secret.
\<close>

theorem sign_then_verify:
  "secret \<noteq> [] \<Longrightarrow>
     verifySignature rt this payload
       (js ''sha256='' @ createHmac_sha256_hex rt secret payload) (Some secret) = Inr True"
  by (simp add: verifySignature_secret)

theorem sign_then_verify_witness:
  "js ''whsec_test'' \<noteq> [] \<and>
   createHmac_sha256_hex example_runtime (js ''whsec_test'') (PBuffer (bytes event_text)) =
     js ''18db97f5ded002c649fe0dfdaf93ecd89f48c5761279673a71eaf9627c14fada'' \<and>
   verifySignature example_runtime \<lparr>webhookSecret = None\<rparr> (PBuffer (bytes event_text))
     (js ''sha256=18db97f5ded002c649fe0dfdaf93ecd89f48c5761279673a71eaf9627c14fada'')
     (Some (js ''whsec_test'')) = Inr True"
proof -
  have h: "js ''whsec_test'' \<noteq> []" by (simp add: js_def)
  have d: "createHmac_sha256_hex example_runtime (js ''whsec_test'') (PBuffer (bytes event_text)) =
     js ''18db97f5ded002c649fe0dfdaf93ecd89f48c5761279673a71eaf9627c14fada''"
    by (simp add: example_defs)
  have c: "js ''sha256='' @ js ''18db97f5ded002c649fe0dfdaf93ecd89f48c5761279673a71eaf9627c14fada'' =
     js ''sha256=18db97f5ded002c649fe0dfdaf93ecd89f48c5761279673a71eaf9627c14fada''"
    by (simp add: js_def)
  show ?thesis
    using h d sign_then_verify [OF h, of example_runtime "\<lparr>webhookSecret = None\<rparr>"
        "PBuffer (bytes event_text)"]
    by (simp only: d c) simp
qed

text \<open>
  Claim C4. \<open>safeCompare\<close> answers false whenever the two strings differ in length.
  For strings of equal length its answer is whether the OR, over all positions, of the
  XOR of the two character codes is zero, and that is the case exactly when the two
  strings are equal.
\<close>

theorem safeCompare_constant_time_equality:
  "(length a \<noteq> length b \<longrightarrow> safeCompare a b = False) \<and>
   (length a = length b \<longrightarrow>
      safeCompare a b =
        (fold (\<lambda>(x, y) r. r OR (ucast x XOR ucast y)) (zip a b) (0 :: 32 word) = 0) \<and>
      safeCompare a b = (a = b))"
proof (intro conjI impI)
  assume "length a \<noteq> length b"
  then show "safeCompare a b = False" by (simp add: safeCompare_def)
next
  assume "length a = length b"
  then show "safeCompare a b =
      (fold (\<lambda>(x, y) r. r OR (ucast x XOR ucast y)) (zip a b) (0 :: 32 word) = 0)"
    by (simp add: safeCompare_def safeCompare_loop_fold)
next
  show "safeCompare a b = (a = b)" by (rule safeCompare_eq)
qed

theorem safeCompare_constant_time_equality_witness:
  "length (js ''sha256=ab'') \<noteq> length (js ''sha256=abc'') \<and>
   safeCompare (js ''sha256=ab'') (js ''sha256=abc'') = False \<and>
   length (js ''sha256=ab'') = length (js ''sha256=ac'') \<and>
   safeCompare (js ''sha256=ab'') (js ''sha256=ac'') = False \<and>
   safeCompare (js ''sha256=ab'') (js ''sha256=ab'') = True"
  using safeCompare_constant_time_equality [of "js ''sha256=ab''" "js ''sha256=abc''"]
        safeCompare_constant_time_equality [of "js ''sha256=ab''" "js ''sha256=ac''"]
        safeCompare_constant_time_equality [of "js ''sha256=ab''" "js ''sha256=ab''"]
  by (simp add: js_def)

text \<open>
  A per-call secret is given and a default is configured, both the empty string:
  \<open>verifySignature\<close> throws all the same.
\<close>

theorem verifySignature_given_empty_secret_counterexample:
  "verifySignature example_runtime \<lparr>webhookSecret = Some []\<rparr> (PString (js ''{}''))
     (js ''sha256=46bdc2a2e83964bd2695acc6a1f97162d8bafc135a071aa5cd5c99aae5481440'')
     (Some []) =
   Inl (XRPLSaleError ''Webhook secret is required for signature verification'' None)"
  by (simp add: verifySignature_def)

text \<open>
  Claim C7, with the empty string counted as absent. \<open>verifySignature\<close> throws
  exactly when the per-call secret is undefined or empty and the configured secret is
  undefined or empty, and what it throws is the error with the message
  \<open>Webhook secret is required for signature verification\<close>. Otherwise it returns
  whether the signature equals \<open>sha256=\<close> followed by the hex digest under the secret
  it selects, the per-call one first.
\<close>

theorem verifySignature_fails_iff_no_secret:
  "(isl (verifySignature rt this payload signature secret) \<longleftrightarrow>
      \<not> truthy secret \<and> \<not> truthy (webhookSecret this)) \<and>
   (\<not> truthy secret \<and> \<not> truthy (webhookSecret this) \<longrightarrow>
      verifySignature rt this payload signature secret =
        Inl (XRPLSaleError ''Webhook secret is required for signature verification'' None)) \<and>
   (truthy secret \<or> truthy (webhookSecret this) \<longrightarrow>
      verifySignature rt this payload signature secret =
        Inr (signature = js ''sha256='' @
               createHmac_sha256_hex rt
                 (if truthy secret then the secret else the (webhookSecret this)) payload))"
proof (cases "truthy secret \<or> truthy (webhookSecret this)")
  case True
  then show ?thesis using verifySignature_secret [OF True, of rt payload signature] by auto
next
  case False
  then show ?thesis using verifySignature_no_secret [of secret this rt payload signature] by auto
qed

theorem verifySignature_fails_iff_no_secret_witness:
  "isl (verifySignature example_runtime \<lparr>webhookSecret = None\<rparr> (PString (js ''{}''))
          (js ''sha256=00'') None) \<and>
   verifySignature example_runtime \<lparr>webhookSecret = Some (js ''whsec_test'')\<rparr>
     (PString (js ''{}''))
     (js ''sha256=46bdc2a2e83964bd2695acc6a1f97162d8bafc135a071aa5cd5c99aae5481440'') None =
     Inr True \<and>
   verifySignature example_runtime \<lparr>webhookSecret = None\<rparr> (PString (js ''{}''))
     (js ''sha256=00'') (Some (js ''whsec_test'')) = Inr False"
  using verifySignature_fails_iff_no_secret [of example_runtime "\<lparr>webhookSecret = None\<rparr>"
          "PString (js ''{}'')" "js ''sha256=00''" None]
        verifySignature_fails_iff_no_secret [of example_runtime
          "\<lparr>webhookSecret = Some (js ''whsec_test'')\<rparr>" "PString (js ''{}'')"
          "js ''sha256=46bdc2a2e83964bd2695acc6a1f97162d8bafc135a071aa5cd5c99aae5481440''" None]
        verifySignature_fails_iff_no_secret [of example_runtime "\<lparr>webhookSecret = None\<rparr>"
          "PString (js ''{}'')" "js ''sha256=00''" "Some (js ''whsec_test'')"]
  by (simp add: example_defs)

text \<open>
  The payload \<open>{}\<close> is valid JSON with none of the fields of a WebhookEvent, and
  \<open>parseWebhook\<close> returns it.
\<close>

theorem parseWebhook_incomplete_event_counterexample:
  "parseWebhook example_runtime (PString (js ''{}'')) = Inr (JObject []) \<and>
   \<not> is_WebhookEvent (JObject [])"
  by (simp add: parseWebhook_cases payload_text_def is_WebhookEvent_def has_field_def
        example_defs)

text \<open>
  Claim C8, as the code has it. \<open>parseWebhook\<close> throws exactly when
  \<open>JSON.parse\<close> rejects the text of the payload, and what it throws is the error with
  the message \<open>Invalid webhook payload\<close>. Otherwise it returns the value that
  \<open>JSON.parse\<close> produced, whatever fields it has.
\<close>

theorem parseWebhook_fails_iff_JSON_parse_fails:
  "(isl (parseWebhook rt payload) \<longleftrightarrow> JSON_parse rt (payload_text rt payload) = None) \<and>
   (JSON_parse rt (payload_text rt payload) = None \<longrightarrow>
      parseWebhook rt payload = Inl (XRPLSaleError ''Invalid webhook payload'' None)) \<and>
   (\<forall>v. JSON_parse rt (payload_text rt payload) = Some v \<longrightarrow> parseWebhook rt payload = Inr v)"
  by (simp add: parseWebhook_cases split: option.split)

theorem parseWebhook_fails_iff_JSON_parse_fails_witness:
  "JSON_parse example_runtime (payload_text example_runtime (PString (js ''not-json''))) = None \<and>
   parseWebhook example_runtime (PString (js ''not-json'')) =
     Inl (XRPLSaleError ''Invalid webhook payload'' None) \<and>
   JSON_parse example_runtime (payload_text example_runtime (PBuffer (bytes event_text))) =
     Some event_json \<and>
   parseWebhook example_runtime (PBuffer (bytes event_text)) = Inr event_json \<and>
   is_WebhookEvent event_json"
proof -
  have n: "JSON_parse example_runtime (payload_text example_runtime (PString (js ''not-json''))) = None"
    by (simp add: payload_text_def example_defs)
  have e: "JSON_parse example_runtime (payload_text example_runtime (PBuffer (bytes event_text))) =
      Some event_json"
    by (simp add: payload_text_def example_defs)
  have w: "is_WebhookEvent event_json"
    by (simp add: is_WebhookEvent_def has_field_def event_json_def js_def)
  show ?thesis
    using n e w
      parseWebhook_fails_iff_JSON_parse_fails [of example_runtime "PString (js ''not-json'')"]
      parseWebhook_fails_iff_JSON_parse_fails [of example_runtime "PBuffer (bytes event_text)"]
    by simp
qed

text \<open>
  Claim C9. A per-call secret that is the empty string is treated as absent:
  \<open>verifySignature\<close> behaves as it does without a per-call secret, it compares
  against the digest under the configured secret when there is one, and it throws the
  missing-secret error when there is none.
\<close>

theorem verifySignature_empty_secret_is_absent:
  "verifySignature rt this payload signature (Some []) =
     verifySignature rt this payload signature None \<and>
   (truthy (webhookSecret this) \<longrightarrow>
      verifySignature rt this payload signature (Some []) =
        Inr (safeCompare
               (js ''sha256='' @ createHmac_sha256_hex rt (the (webhookSecret this)) payload)
               signature)) \<and>
   (\<not> truthy (webhookSecret this) \<longrightarrow>
      verifySignature rt this payload signature (Some []) =
        Inl (XRPLSaleError ''Webhook secret is required for signature verification'' None))"
  by (simp add: verifySignature_def)

theorem verifySignature_empty_secret_is_absent_witness:
  "truthy (webhookSecret \<lparr>webhookSecret = Some (js ''whsec_test'')\<rparr>) \<and>
   verifySignature example_runtime \<lparr>webhookSecret = Some (js ''whsec_test'')\<rparr>
     (PString (js ''not-json''))
     (js ''sha256=3dfe711bff9709e422f05bfd629824c5a6d68d8c9659bf361f14de6940e3b945'')
     (Some []) = Inr True \<and>
   \<not> truthy (webhookSecret \<lparr>webhookSecret = None\<rparr>) \<and>
   verifySignature example_runtime \<lparr>webhookSecret = None\<rparr> (PString (js ''not-json''))
     (js ''sha256=3dfe711bff9709e422f05bfd629824c5a6d68d8c9659bf361f14de6940e3b945'')
     (Some []) =
     Inl (XRPLSaleError ''Webhook secret is required for signature verification'' None)"
proof -
  let ?sig = "js ''sha256=3dfe711bff9709e422f05bfd629824c5a6d68d8c9659bf361f14de6940e3b945''"
  have t: "truthy (webhookSecret \<lparr>webhookSecret = Some (js ''whsec_test'')\<rparr>)"
    by (simp add: js_def)
  have n: "\<not> truthy (webhookSecret \<lparr>webhookSecret = None\<rparr>)"
    by simp
  note fallback = verifySignature_empty_secret_is_absent [of example_runtime
      "\<lparr>webhookSecret = Some (js ''whsec_test'')\<rparr>" "PString (js ''not-json'')" ?sig,
      THEN conjunct2, THEN conjunct1, rule_format, OF t]
  note missing = verifySignature_empty_secret_is_absent [of example_runtime
      "\<lparr>webhookSecret = None\<rparr>" "PString (js ''not-json'')" ?sig,
      THEN conjunct2, THEN conjunct2, rule_format, OF n]
  have "verifySignature example_runtime \<lparr>webhookSecret = Some (js ''whsec_test'')\<rparr>
     (PString (js ''not-json'')) ?sig (Some []) = Inr True"
    unfolding fallback by (simp add: example_defs safeCompare_eq)
  with t n missing show ?thesis by simp
qed

section \<open>Retrying\<close>

text \<open>
  Claim C2. When the operation fails at each of its first \<open>n + 1\<close> calls,
  \<open>withRetry\<close> with \<open>maxRetries = n\<close> calls it exactly \<open>n + 1\<close> times, leaves
  the world in the state after these calls, and throws the error of the last call
  itself.
\<close>

theorem withRetry_exhaustion:
  assumes "\<forall>j\<le>n. isl (attempt fn s j)" and "attempt fn s n = Inl e"
  shows "fst (withRetry nums fn (Some (int n)) delay backoff s) = Inl (Some e) \<and>
         calls (snd (snd (withRetry nums fn (Some (int n)) delay backoff s))) = n + 1 \<and>
         fst (snd (withRetry nums fn (Some (int n)) delay backoff s)) = attempt_state fn s (n + 1)"
proof -
  have "withRetry_loop nums fn (int n) d b 0 None s =
     (Inl (Some (projl (attempt fn s n))), attempt_state fn s (Suc n),
      failed_rounds nums d b (nat 0) n @ [Called])" for d b
    using assms(1) by (intro withRetry_loop_exhausted) simp_all
  then show ?thesis
    by (simp add: withRetry_loop_resolved assms(2) calls_failed_rounds)
qed

theorem withRetry_exhaustion_witness:
  "isl (attempt always_fails 0 0) \<and> isl (attempt always_fails 0 1) \<and>
   isl (attempt always_fails 0 2) \<and> attempt always_fails 0 3 = Inl 3 \<and>
   fst (withRetry exact_numbers always_fails (Some 3) None None 0) = Inl (Some 3) \<and>
   calls (snd (snd (withRetry exact_numbers always_fails (Some 3) None None 0))) = 4 \<and>
   fst (snd (withRetry exact_numbers always_fails (Some 3) None None 0)) = 4"
proof -
  have h1: "\<forall>j\<le>3. isl (attempt always_fails 0 j)" by (simp add: attempt_always_fails)
  have h2: "attempt always_fails 0 3 = Inl 3" by (simp add: attempt_always_fails)
  show ?thesis
    using h2 withRetry_exhaustion [OF h1 h2, of exact_numbers None None]
    by (simp add: attempt_state_always_fails attempt_always_fails)
qed

text \<open>
  Claim C5. A run of \<open>withRetry\<close> with \<open>maxRetries \<ge> 0\<close> consists of \<open>k\<close> rounds,
  \<open>k \<le> maxRetries\<close>, and one more call. Round \<open>i\<close>, counted from 0, is call \<open>i\<close>
  of the operation, which failed, followed by a wait of
  \<open>delay * Math.pow(backoff, i)\<close>, and the next call comes after that wait. Round
  \<open>i\<close> takes place whenever the calls up to \<open>i\<close> have failed and call \<open>i\<close> is not
  the final one allowed. The run ends in the state after call \<open>k\<close>, with what that
  call produced. With a delay of 1000 and a backoff of 2 the waits are 1000, 2000,
  4000.
\<close>

theorem withRetry_backoff_delays:
  assumes "0 \<le> maxRetries"
  shows "\<exists>k. int k \<le> maxRetries \<and>
           snd (snd (withRetry nums fn (Some maxRetries) (Some delay) (Some backoff) s)) =
             concat (map (\<lambda>i. [Called, Waited (multiply nums delay (Math_pow nums backoff (int i)))])
                       [0 ..< k]) @ [Called] \<and>
           (\<forall>i<k. isl (attempt fn s i)) \<and>
           (\<forall>i. int i < maxRetries \<and> (\<forall>j\<le>i. isl (attempt fn s j)) \<longrightarrow> i < k) \<and>
           fst (snd (withRetry nums fn (Some maxRetries) (Some delay) (Some backoff) s)) =
             attempt_state fn s (Suc k) \<and>
           fst (withRetry nums fn (Some maxRetries) (Some delay) (Some backoff) s) =
             settle (attempt fn s k)"
proof -
  obtain k where k: "0 + int k \<le> maxRetries" "\<forall>j<k. isl (attempt fn s j)"
      "isl (attempt fn s k) \<longrightarrow> 0 + int k = maxRetries"
      "withRetry_loop nums fn maxRetries delay backoff 0 None s =
         (settle (attempt fn s k), attempt_state fn s (Suc k),
          failed_rounds nums delay backoff (nat 0) k @ [Called])"
    using withRetry_loop_run [OF order_refl assms, of fn s nums delay backoff None] by blast
  have waited: "\<forall>i. int i < maxRetries \<and> (\<forall>j\<le>i. isl (attempt fn s j)) \<longrightarrow> i < k"
  proof (intro allI impI)
    fix i assume a: "int i < maxRetries \<and> (\<forall>j\<le>i. isl (attempt fn s j))"
    show "i < k"
    proof (rule ccontr)
      assume "\<not> i < k"
      then have ki: "k \<le> i" by simp
      with a have "isl (attempt fn s k)" by simp
      with k(3) have "int k = maxRetries" by simp
      with a ki show False by simp
    qed
  qed
  show ?thesis
    using k(1,2) waited
    by (intro exI [of _ k]) (simp add: withRetry_loop_resolved k(4) failed_rounds_def)
qed

theorem withRetry_backoff_delays_witness:
  "(0::int) \<le> 3 \<and>
   snd (snd (withRetry exact_numbers always_fails (Some 3) (Some 1000) (Some 2) 0)) =
     [Called, Waited 1000, Called, Waited 2000, Called, Waited 4000, Called] \<and>
   fst (snd (withRetry exact_numbers always_fails (Some 3) (Some 1000) (Some 2) 0)) = 4 \<and>
   fst (withRetry exact_numbers always_fails (Some 3) (Some 1000) (Some 2) 0) = Inl (Some 3)"
proof -
  let ?R = "withRetry exact_numbers always_fails (Some 3) (Some 1000) (Some 2) 0"
  have h: "(0::int) \<le> 3" by simp
  from withRetry_backoff_delays [OF h, of exact_numbers always_fails 1000 2 0]
  obtain k where k: "int k \<le> 3"
      "snd (snd ?R) =
         concat (map (\<lambda>i. [Called,
                   Waited (multiply exact_numbers 1000 (Math_pow exact_numbers 2 (int i)))])
                 [0 ..< k]) @ [Called]"
      "\<forall>i. int i < 3 \<and> (\<forall>j\<le>i. isl (attempt always_fails 0 j)) \<longrightarrow> i < k"
      "fst (snd ?R) = attempt_state always_fails 0 (Suc k)"
      "fst ?R = settle (attempt always_fails 0 k)"
    by blast
  from k(3) [rule_format, of 2] have "2 < k" by (simp add: attempt_always_fails)
  with k(1) have k3: "k = 3" by simp
  have up: "[0 ..< 3] = [0, 1, 2]" by (simp add: upt_rec)
  show ?thesis
    using k(2,4,5) unfolding k3
    by (simp add: up exact_numbers_simps attempt_state_always_fails attempt_always_fails
          settle_def)
qed

text \<open>
  Claim C6. When the operation fails at its first and second call and returns \<open>v\<close>
  from its third, \<open>withRetry\<close> with \<open>maxRetries = 3\<close> returns \<open>v\<close> after exactly
  two waits and three calls, and the world is in the state after the third call.
\<close>

theorem withRetry_third_attempt_succeeds:
  assumes "isl (attempt fn s 0)" and "isl (attempt fn s 1)" and "attempt fn s 2 = Inr v"
  shows "fst (withRetry nums fn (Some 3) delay backoff s) = Inr v \<and>
         length (waits (snd (snd (withRetry nums fn (Some 3) delay backoff s)))) = 2 \<and>
         calls (snd (snd (withRetry nums fn (Some 3) delay backoff s))) = 3 \<and>
         fst (snd (withRetry nums fn (Some 3) delay backoff s)) = attempt_state fn s 3"
proof -
  have fails: "\<forall>j<2. isl (attempt fn s j)"
    using assms(1,2) by (auto simp: less_Suc_eq numeral_2_eq_2)
  have "withRetry_loop nums fn 3 d b 0 None s =
     (Inr v, attempt_state fn s (Suc 2), failed_rounds nums d b (nat 0) 2 @ [Called])" for d b
    using fails assms(3) by (intro withRetry_loop_succeeds) simp_all
  then show ?thesis
    by (simp add: withRetry_loop_resolved calls_failed_rounds waits_failed_rounds
          numeral_3_eq_3)
qed

theorem withRetry_third_attempt_succeeds_witness:
  "isl (attempt fails_twice 0 0) \<and> isl (attempt fails_twice 0 1) \<and>
   attempt fails_twice 0 2 = Inr 102 \<and>
   fst (withRetry exact_numbers fails_twice (Some 3) None None 0) = Inr 102 \<and>
   length (waits (snd (snd (withRetry exact_numbers fails_twice (Some 3) None None 0)))) = 2 \<and>
   calls (snd (snd (withRetry exact_numbers fails_twice (Some 3) None None 0))) = 3 \<and>
   fst (snd (withRetry exact_numbers fails_twice (Some 3) None None 0)) = 3"
proof -
  have h0: "isl (attempt fails_twice 0 0)" by (simp add: attempt_fails_twice)
  have h1: "isl (attempt fails_twice 0 1)" by (simp add: attempt_fails_twice)
  have h2: "attempt fails_twice 0 2 = Inr 102" by (simp add: attempt_fails_twice)
  show ?thesis
    using h0 h1 h2 withRetry_third_attempt_succeeds [OF h0 h1 h2, of exact_numbers None None]
    by (simp add: attempt_state_fails_twice)
qed

text \<open>
  Claim C10. For \<open>maxRetries \<ge> 0\<close> the operation is called at least once: the run
  makes \<open>k \<ge> 1\<close> calls, leaves the world in the state after \<open>k\<close> calls of the
  operation, and ends with what call \<open>k - 1\<close> produced. With \<open>maxRetries = 0\<close> the
  operation is called exactly once and there is no wait: its value is returned, or its
  error is thrown at once.
\<close>

theorem withRetry_at_least_once:
  "(0 \<le> maxRetries \<longrightarrow>
      (\<exists>k\<ge>1.
         calls (snd (snd (withRetry nums fn (Some maxRetries) delay backoff s))) = k \<and>
         fst (snd (withRetry nums fn (Some maxRetries) delay backoff s)) = attempt_state fn s k \<and>
         fst (withRetry nums fn (Some maxRetries) delay backoff s) =
           settle (attempt fn s (k - 1)))) \<and>
   withRetry nums fn (Some 0) delay backoff s =
     (case fn s of
        (Inl e, s') \<Rightarrow> (Inl (Some e), s', [Called])
      | (Inr v, s') \<Rightarrow> (Inr v, s', [Called]))"
proof (intro conjI impI)
  assume m: "0 \<le> maxRetries"
  let ?d = "case delay of None \<Rightarrow> number_of_int nums 1000 | Some d \<Rightarrow> d"
  let ?b = "case backoff of None \<Rightarrow> number_of_int nums 2 | Some b \<Rightarrow> b"
  obtain k where
    "withRetry_loop nums fn maxRetries ?d ?b 0 None s =
       (settle (attempt fn s k), attempt_state fn s (Suc k),
        failed_rounds nums ?d ?b (nat 0) k @ [Called])"
    using withRetry_loop_run [OF order_refl m, of fn s nums ?d ?b None] by blast
  then show "\<exists>k\<ge>1.
         calls (snd (snd (withRetry nums fn (Some maxRetries) delay backoff s))) = k \<and>
         fst (snd (withRetry nums fn (Some maxRetries) delay backoff s)) = attempt_state fn s k \<and>
         fst (withRetry nums fn (Some maxRetries) delay backoff s) =
           settle (attempt fn s (k - 1))"
    by (intro exI [of _ "Suc k"]) (simp add: withRetry_loop_resolved calls_failed_rounds)
next
  obtain r s' where fn_s: "fn s = (r, s')" by (cases "fn s")
  show "withRetry nums fn (Some 0) delay backoff s =
     (case fn s of
        (Inl e, s') \<Rightarrow> (Inl (Some e), s', [Called])
      | (Inr v, s') \<Rightarrow> (Inr v, s', [Called]))"
  proof (cases r)
    case (Inl e)
    then show ?thesis
      using withRetry_loop_throws [where fn = fn and s = s and m = 0, of e s'] fn_s
      by (simp add: withRetry_loop_resolved)
  next
    case (Inr v)
    then show ?thesis
      using withRetry_loop_returns [where fn = fn and s = s and m = 0 and i = 0, of v s'] fn_s
      by (simp add: withRetry_loop_resolved)
  qed
qed

theorem withRetry_at_least_once_witness:
  "(0::int) \<le> 5 \<and>
   1 \<le> calls (snd (snd (withRetry exact_numbers fails_twice (Some 5) None None 0))) \<and>
   fst (snd (withRetry exact_numbers fails_twice (Some 5) None None 0)) =
     calls (snd (snd (withRetry exact_numbers fails_twice (Some 5) None None 0))) \<and>
   withRetry exact_numbers fails_twice (Some 5) None None 0 =
     (Inr 102, 3, [Called, Waited 1000, Called, Waited 2000, Called]) \<and>
   withRetry exact_numbers always_fails (Some 0) None None 7 = (Inl (Some 7), 8, [Called]) \<and>
   withRetry exact_numbers fails_twice (Some 0) None None 2 = (Inr 102, 3, [Called])"
proof -
  let ?R = "withRetry exact_numbers fails_twice (Some 5) None None 0"
  have h: "(0::int) \<le> 5" by simp
  from withRetry_at_least_once [of 5 exact_numbers fails_twice None None 0, THEN conjunct1,
      rule_format, OF h]
  obtain k where k: "1 \<le> k" "calls (snd (snd ?R)) = k"
      "fst (snd ?R) = attempt_state fails_twice 0 k"
    by blast
  have tied: "1 \<le> calls (snd (snd ?R)) \<and> fst (snd ?R) = calls (snd (snd ?R))"
    using k by (simp add: attempt_state_fails_twice)
  have fails: "\<forall>j<2. isl (attempt fails_twice 0 j)" by (simp add: attempt_fails_twice)
  have "withRetry_loop exact_numbers fails_twice 5 1000 2 0 None 0 =
     (Inr 102, attempt_state fails_twice 0 (Suc 2),
      failed_rounds exact_numbers 1000 2 (nat 0) 2 @ [Called])"
    using fails by (intro withRetry_loop_succeeds) (simp_all add: attempt_fails_twice)
  moreover have "failed_rounds exact_numbers 1000 2 (nat 0) 2 =
      [Called, Waited 1000, Called, Waited 2000]"
    by (simp add: failed_rounds_exact upt_rec)
  ultimately have run: "?R = (Inr 102, 3, [Called, Waited 1000, Called, Waited 2000, Called])"
    by (simp add: withRetry_loop_resolved attempt_state_fails_twice exact_numbers_simps)
  show ?thesis
    using h tied run
      withRetry_at_least_once [of 0 exact_numbers always_fails None None 7, THEN conjunct2]
      withRetry_at_least_once [of 0 exact_numbers fails_twice None None 2, THEN conjunct2]
    by (simp add: always_fails_def fails_twice_def)
qed

end
